theory Spec2Isabelle
  imports Main "HOL-Library.Sublist" "HOL-Library.List_Lexorder" "HOL-Library.Char_ord"
begin

section \<open>Python string operations used by the scripts\<close>

text \<open>
  Strings are byte lists. The operations below are \<open>str.lower\<close>, \<open>str.strip\<close>,
  \<open>str.lstrip('/')\<close>, \<open>str.split(',')\<close>, \<open>str.startswith\<close> and the substring test
  \<open>a in b\<close>, on ASCII text: \<open>lower\<close> maps \<open>A..Z\<close> to \<open>a..z\<close> and \<open>strip\<close> removes the
  ASCII white space of Python (codes 9 to 13 and 28 to 32).
\<close>

definition lower_char :: "char \<Rightarrow> char" where
  "lower_char c =
     (case map_of (zip ''ABCDEFGHIJKLMNOPQRSTUVWXYZ'' ''abcdefghijklmnopqrstuvwxyz'') c of
        Some d \<Rightarrow> d
      | None \<Rightarrow> c)"

definition lower :: "string \<Rightarrow> string" where
  "lower s = map lower_char s"

definition isspace :: "char \<Rightarrow> bool" where
  "isspace c =
     (c \<in> {CHR 0x09, CHR 0x0A, CHR 0x0B, CHR 0x0C, CHR 0x0D,
            CHR 0x1C, CHR 0x1D, CHR 0x1E, CHR 0x1F, CHR '' ''})"

definition strip :: "string \<Rightarrow> string" where
  "strip s = rev (dropWhile isspace (rev (dropWhile isspace s)))"

definition lstrip_slash :: "string \<Rightarrow> string" where
  "lstrip_slash s = dropWhile (\<lambda>c. c = CHR ''/'') s"

text \<open>\<open>s.split(',')\<close>: the fields between the commas; the empty string gives one empty field.\<close>

fun split_comma :: "string \<Rightarrow> string list" where
  "split_comma [] = [[]]"
| "split_comma (c # cs) =
     (if c = CHR '','' then [] # split_comma cs
      else (case split_comma cs of f # fs \<Rightarrow> (c # f) # fs | [] \<Rightarrow> [[c]]))"

definition startswith :: "string \<Rightarrow> string \<Rightarrow> bool" where
  "startswith s p = prefix p s"

text \<open>\<open>sub in s\<close> for strings: \<open>sub\<close> occurs in \<open>s\<close> as a contiguous run.\<close>

fun str_contains :: "string \<Rightarrow> string \<Rightarrow> bool" where
  "str_contains sub [] = (sub = [])"
| "str_contains sub (c # cs) = (prefix sub (c # cs) \<or> str_contains sub cs)"

section \<open>Configuration read from the environment\<close>

text \<open>
  \<open>os.getenv(name, default)\<close> over an environment given as a partial map.
\<close>

definition getenv :: "(string \<rightharpoonup> string) \<Rightarrow> string \<Rightarrow> string \<Rightarrow> string" where
  "getenv environ name dflt = (case environ name of Some v \<Rightarrow> v | None \<Rightarrow> dflt)"

text \<open>
  \<open>get_exempt_users\<close> of \<open>enforce_2fa.py\<close>: the entries of \<open>2FA_EXEMPT_USERS\<close>, each
  stripped of surrounding white space.
\<close>

definition get_exempt_users :: "(string \<rightharpoonup> string) \<Rightarrow> string list" where
  "get_exempt_users environ =
     (let exempt_users_str = getenv environ ''2FA_EXEMPT_USERS'' '''' in
      if exempt_users_str \<noteq> [] then map strip (split_comma exempt_users_str) else [])"

text \<open>
  \<open>Enforce2FAMiddleware._get_exempt_users\<close> of \<open>zou_2fa_middleware.py\<close>: the same
  entries, each stripped and lower-cased.
\<close>

definition mw_get_exempt_users :: "(string \<rightharpoonup> string) \<Rightarrow> string list" where
  "mw_get_exempt_users environ =
     (let exempt_users_str = getenv environ ''2FA_EXEMPT_USERS'' '''' in
      if exempt_users_str \<noteq> []
      then map (\<lambda>email. lower (strip email)) (split_comma exempt_users_str) else [])"

section \<open>The request gate of \<open>zou_2fa_middleware.py\<close>\<close>

subsection \<open>Data\<close>

text \<open>
  A person as the scripts see it: the columns of the \<open>person\<close> table the command-line
  script selects, which are also the attributes the gate reads from the current user.
  The primary key (\<open>id\<close> in the table) is \<open>user_id\<close>, as the scripts name it.
\<close>

record person =
  user_id :: string
  email :: "string option"
  first_name :: "string option"
  last_name :: "string option"
  totp_enabled :: bool
  email_otp_enabled :: bool
  fido_enabled :: bool
  active :: bool
  role :: string

text \<open>The \<open>current_user\<close> of flask_login: a person with \<open>is_authenticated\<close>.\<close>

record login_user = person +
  is_authenticated :: bool

text \<open>What the gate reads of the Flask request.\<close>

record request =
  path :: string
  "method" :: string
  is_json :: bool
  headers :: "string \<rightharpoonup> string"

definition header_get :: "request \<Rightarrow> string \<Rightarrow> string \<Rightarrow> string" where
  "header_get req name dflt = (case headers req name of Some v \<Rightarrow> v | None \<Rightarrow> dflt)"

datatype json = JBool bool | JStr string | JNull

text \<open>
  The body of a blocking response: the JSON object built by \<open>jsonify\<close>, as its list of
  fields, or the fixed HTML page of \<open>_handle_2fa_required\<close>, a literal into which nothing
  of the request or of the user is interpolated.
\<close>

datatype body = JsonBody "(string \<times> json) list" | HtmlPage

record response =
  status_code :: nat
  payload :: body

text \<open>\<open>Allow\<close> is the handler returning \<open>None\<close> (the request passes through).\<close>

datatype decision = Allow | Block response

text \<open>The middleware object: \<open>self.require_2fa\<close> and \<open>self.exempt_users\<close>.\<close>

record middleware =
  require_2fa :: bool
  exempt_users :: "string list"

definition init_middleware :: "(string \<rightharpoonup> string) \<Rightarrow> middleware" where
  "init_middleware environ =
     \<lparr>require_2fa = (lower (getenv environ ''REQUIRE_2FA'' ''False'') \<in> set [''true'', ''1'', ''yes'']),
      exempt_users = mw_get_exempt_users environ\<rparr>"

subsection \<open>Exceptions and the calls that may raise them\<close>

text \<open>
  The exception classes the handlers of \<open>check_2fa_requirement\<close> tell apart; every other
  subclass of \<open>Exception\<close> is \<open>OtherException\<close>.
\<close>

datatype exn = ImportError | NoAuthorizationError | InvalidHeaderError | OtherException

text \<open>
  The places of \<open>check_2fa_requirement\<close> that leave the module: the two groups of import
  statements, the look-ups of the caller, and the helper methods.
\<close>

datatype step =
    ImportFlaskLogin
  | CurrentUser
  | IsExempt
  | Has2FA
  | HandleRequired
  | ImportJwt
  | VerifyJwt
  | GetJwtIdentity
  | GetPerson

text \<open>
  The surroundings of one request: which step raises what (\<open>None\<close>: it returns), the
  \<open>current_user\<close> of the session (\<open>None\<close>: a falsy proxy), the identity in the bearer
  token, and the person service.
\<close>

record env =
  fault :: "step \<Rightarrow> exn option"
  current_user :: "login_user option"
  jwt_identity :: "string option"
  get_person :: "string \<Rightarrow> person option"

text \<open>
  A computation yields the steps it took, in order, and an exception (\<open>Inl\<close>) or a value.
\<close>

type_synonym 'a comp = "step list \<times> (exn + 'a)"

definition ret :: "'a \<Rightarrow> 'a comp" where
  "ret v = ([], Inr v)"

definition call :: "env \<Rightarrow> step \<Rightarrow> 'a \<Rightarrow> 'a comp" where
  "call e s v = ([s], case fault e s of Some x \<Rightarrow> Inl x | None \<Rightarrow> Inr v)"

text \<open>
  \<open>try_call m h k\<close>: run \<open>m\<close> inside a \<open>try\<close>; an exception the clauses \<open>h\<close> match runs
  that clause, another one propagates; a value goes on to \<open>k\<close>, outside the \<open>try\<close>.
\<close>

definition try_call ::
  "'a comp \<Rightarrow> (exn \<Rightarrow> 'b comp option) \<Rightarrow> ('a \<Rightarrow> 'b comp) \<Rightarrow> 'b comp" where
  "try_call m h k =
     (case m of
        (t, Inl x) \<Rightarrow> (case h x of Some (t', r) \<Rightarrow> (t @ t', r) | None \<Rightarrow> (t, Inl x))
      | (t, Inr v) \<Rightarrow> (case k v of (t', r) \<Rightarrow> (t @ t', r)))"

definition bind :: "'a comp \<Rightarrow> ('a \<Rightarrow> 'b comp) \<Rightarrow> 'b comp" where
  "bind m k = try_call m (\<lambda>x. None) k"

subsection \<open>The helper methods\<close>

definition is_exempt_user :: "middleware \<Rightarrow> string option \<Rightarrow> bool" where
  "is_exempt_user mw em =
     (case em of
        None \<Rightarrow> False
      | Some e \<Rightarrow> if e = [] then False else lower e \<in> set (exempt_users mw))"

definition has_2fa_enabled :: "('a person_scheme) option \<Rightarrow> bool" where
  "has_2fa_enabled user =
     (case user of
        None \<Rightarrow> False
      | Some u \<Rightarrow> totp_enabled u \<or> email_otp_enabled u \<or> fido_enabled u)"

definition auth_endpoints :: "string list" where
  "auth_endpoints =
     [''api/auth/login'', ''auth/login'', ''api/auth/logout'', ''auth/logout'',
      ''api/auth/authenticated'', ''auth/authenticated'', ''api/auth/register'', ''auth/register'']"

definition twofa_endpoints :: "string list" where
  "twofa_endpoints =
     [''api/auth/totp'', ''auth/totp'', ''api/auth/fido'', ''auth/fido'',
      ''api/auth/email-otp'', ''auth/email-otp'', ''api/auth/recovery-codes'', ''auth/recovery-codes'']"

definition legacy_2fa_endpoints :: "string list" where
  "legacy_2fa_endpoints =
     [''api/actions/persons/enable-totp'', ''actions/persons/enable-totp'',
      ''api/actions/persons/disable-totp'', ''actions/persons/disable-totp'',
      ''api/actions/persons/enable-email-otp'', ''actions/persons/enable-email-otp'',
      ''api/actions/persons/disable-email-otp'', ''actions/persons/disable-email-otp'',
      ''api/actions/persons/register-fido-device'', ''actions/persons/register-fido-device'',
      ''api/actions/persons/unregister-fido-device'', ''actions/persons/unregister-fido-device'',
      ''api/actions/persons/generate-recovery-codes'', ''actions/persons/generate-recovery-codes'']"

text \<open>The list \<open>allowed_patterns\<close> of \<open>_is_allowed_route\<close>, in its order.\<close>

definition allowed_patterns :: "string list" where
  "allowed_patterns =
     auth_endpoints @ twofa_endpoints @ [''static/'', ''config'', ''_health'', ''health'']
       @ legacy_2fa_endpoints"

definition is_allowed_route :: "request \<Rightarrow> string \<Rightarrow> bool" where
  "is_allowed_route req p =
     (let normalized = lstrip_slash p in
      if method req = ''GET''
         \<and> (startswith normalized ''data/'' \<or> startswith normalized ''api/data/'') then True
      else if list_ex (startswith normalized) allowed_patterns then True
      else if method req = ''OPTIONS'' then True
      else False)"

definition is_api_request :: "request \<Rightarrow> bool" where
  "is_api_request req =
     (startswith (path req) ''/api/'' \<or> startswith (path req) ''/data/''
      \<or> startswith (path req) ''/actions/'' \<or> is_json req
      \<or> startswith (header_get req ''Accept'' []) ''application/json''
      \<or> str_contains ''XMLHttpRequest'' (header_get req ''X-Requested-With'' []))"

definition message :: string where
  "message = ''Two-Factor Authentication is required for your account. ''
     @ ''Please configure 2FA in your profile settings before continuing.''"

definition handle_2fa_required :: "request \<Rightarrow> string option \<Rightarrow> response" where
  "handle_2fa_required req user_email =
     (if is_api_request req
      then \<lparr>status_code = 403,
            payload = JsonBody
              [(''error'', JBool True),
               (''message'', JStr message),
               (''2fa_required'', JBool True),
               (''redirect_to'', JStr ''/profile''),
               (''user_email'', case user_email of Some e \<Rightarrow> JStr e | None \<Rightarrow> JNull)]\<rparr>
      else \<lparr>status_code = 403, payload = HtmlPage\<rparr>)"

subsection \<open>\<open>check_2fa_requirement\<close>\<close>

text \<open>
  What both branches do once they hold the caller: exemption, the three flags, the read
  method, and the blocking response. Falling out of the \<open>if\<close> reaches the final
  \<open>return None\<close>.
\<close>

definition require_for ::
  "middleware \<Rightarrow> env \<Rightarrow> request \<Rightarrow> string option \<Rightarrow> bool \<Rightarrow> decision comp" where
  "require_for mw e req user_email flags =
     bind (call e IsExempt (is_exempt_user mw user_email)) (\<lambda>exempt.
       if exempt then ret Allow
       else bind (call e Has2FA flags) (\<lambda>has_2fa.
         if \<not> has_2fa then
           if method req = ''GET'' then ret Allow
           else bind (call e HandleRequired (handle_2fa_required req user_email))
                  (\<lambda>resp. ret (Block resp))
         else ret Allow))"

text \<open>The body of the outer \<open>try\<close>: the caller of the flask_login session.\<close>

definition session_path :: "middleware \<Rightarrow> env \<Rightarrow> request \<Rightarrow> decision comp" where
  "session_path mw e req =
     bind (call e ImportFlaskLogin ()) (\<lambda>_.
       bind (call e CurrentUser (current_user e)) (\<lambda>cu.
         case cu of
           None \<Rightarrow> ret Allow
         | Some u \<Rightarrow>
             if \<not> is_authenticated u then ret Allow
             else require_for mw e req (email u) (has_2fa_enabled (Some u))))"

text \<open>
  The innermost \<open>try\<close> of the \<open>ImportError\<close> clause, after the token is verified: the
  identity of the bearer token and the person behind it.
\<close>

definition jwt_body :: "middleware \<Rightarrow> env \<Rightarrow> request \<Rightarrow> decision comp" where
  "jwt_body mw e req =
     bind (call e GetJwtIdentity (jwt_identity e)) (\<lambda>ident.
       case ident of
         None \<Rightarrow> ret Allow
       | Some uid \<Rightarrow>
           if uid = [] then ret Allow
           else bind (call e GetPerson (get_person e uid)) (\<lambda>user.
             case user of
               None \<Rightarrow> ret Allow
             | Some u \<Rightarrow>
                 require_for mw e req (email u)
                   (totp_enabled u \<or> email_otp_enabled u \<or> fido_enabled u)))"

text \<open>
  The verification of the token, with its own clause for the two errors of a missing or
  malformed token, and then the look-up.
\<close>

definition jwt_lookup :: "middleware \<Rightarrow> env \<Rightarrow> request \<Rightarrow> decision comp" where
  "jwt_lookup mw e req =
     try_call (call e VerifyJwt ())
       (\<lambda>x. if x = NoAuthorizationError \<or> x = InvalidHeaderError then Some (ret Allow) else None)
       (\<lambda>_. jwt_body mw e req)"

text \<open>
  The \<open>ImportError\<close> clause: its imports stand under \<open>except ImportError\<close> only, the
  look-up under \<open>except Exception\<close> too.
\<close>

definition token_path :: "middleware \<Rightarrow> env \<Rightarrow> request \<Rightarrow> decision comp" where
  "token_path mw e req =
     try_call
       (bind (call e ImportJwt ()) (\<lambda>_.
          try_call (jwt_lookup mw e req) (\<lambda>x. Some (ret Allow)) ret))
       (\<lambda>x. if x = ImportError then Some (ret Allow) else None)
       ret"

text \<open>
  The handler itself. An exception raised inside the \<open>ImportError\<close> clause is not seen by
  the \<open>except Exception\<close> clause beside it: it leaves the handler.
\<close>

definition check_2fa_requirement :: "middleware \<Rightarrow> env \<Rightarrow> request \<Rightarrow> decision comp" where
  "check_2fa_requirement mw e req =
     (if \<not> require_2fa mw then ret Allow
      else
        let clean_path = lstrip_slash (path req) in
        if is_allowed_route req clean_path then ret Allow
        else
          try_call (session_path mw e req)
            (\<lambda>x. if x = ImportError then Some (token_path mw e req) else Some (ret Allow))
            ret)"

text \<open>The decision of the gate, or the exception it lets out, and the steps it took.\<close>

definition gate :: "middleware \<Rightarrow> env \<Rightarrow> request \<Rightarrow> exn + decision" where
  "gate mw e req = snd (check_2fa_requirement mw e req)"

definition trace :: "middleware \<Rightarrow> env \<Rightarrow> request \<Rightarrow> step list" where
  "trace mw e req = fst (check_2fa_requirement mw e req)"

text \<open>
  A computation without a \<open>try\<close> runs straight: when it yields a value every step it
  took returned, and when it raises, the exception is that of its last step and the
  steps before returned.
\<close>

definition straight :: "env \<Rightarrow> 'a comp \<Rightarrow> bool" where
  "straight e c =
     (case snd c of
        Inr v \<Rightarrow> list_all (\<lambda>s. fault e s = None) (fst c)
      | Inl x \<Rightarrow> fst c \<noteq> [] \<and> fault e (last (fst c)) = Some x
                 \<and> list_all (\<lambda>s. fault e s = None) (butlast (fst c)))"

text \<open>
  A response body carries the field \<open>2fa_required: true\<close>: it is the JSON object and
  holds that field with that value.
\<close>

definition has_2fa_required_field :: "response \<Rightarrow> bool" where
  "has_2fa_required_field r =
     (case payload r of
        JsonBody kvs \<Rightarrow> map_of kvs ''2fa_required'' = Some (JBool True)
      | HtmlPage \<Rightarrow> False)"

section \<open>The command-line script \<open>enforce_2fa.py\<close>\<close>

subsection \<open>The database\<close>

text \<open>
  The \<open>person\<close> table behind an open connection, and what the driver does with the
  statements of one run, which all belong to one transaction: the \<open>SELECT\<close> raises
  \<open>psycopg2.Error\<close> or returns; the \<open>UPDATE\<close> of a given id raises of its own or can
  be carried out; the \<open>commit\<close> raises or returns; the \<open>rollback\<close> raises or returns.
  An \<open>UPDATE\<close> that raises aborts the transaction: every later statement of the
  transaction raises too, and a commit that returns then stores nothing.
\<close>

record db =
  table :: "person list"
  select_fails :: bool
  update_fails :: "string \<Rightarrow> bool"
  commit_fails :: bool
  rollback_fails :: bool

text \<open>The one exception class the script handles.\<close>

datatype db_exn = Psycopg2Error

definition email_str :: "'a person_scheme \<Rightarrow> string" where
  "email_str u = (case email u of Some e \<Rightarrow> e | None \<Rightarrow> [])"

definition has_2fa :: "'a person_scheme \<Rightarrow> bool" where
  "has_2fa u = (totp_enabled u \<or> email_otp_enabled u \<or> fido_enabled u)"

text \<open>
  The query of \<open>audit_users\<close>: \<open>WHERE email IS NOT NULL ORDER BY email\<close>, the order
  being that of the strings as byte lists.
\<close>

definition select_all_users :: "person list \<Rightarrow> person list" where
  "select_all_users rows = sort_key email_str (filter (\<lambda>u. email u \<noteq> None) rows)"

text \<open>The query of \<open>enforce_2fa\<close>: the active rows with no method and an email.\<close>

definition select_active_without_2fa :: "person list \<Rightarrow> person list" where
  "select_active_without_2fa rows =
     filter (\<lambda>u. active u \<and> \<not> totp_enabled u \<and> \<not> email_otp_enabled u
                 \<and> \<not> fido_enabled u \<and> email u \<noteq> None) rows"

text \<open>\<open>UPDATE person SET active = b WHERE id = uid\<close>.\<close>

definition set_active :: "string \<Rightarrow> bool \<Rightarrow> person list \<Rightarrow> person list" where
  "set_active uid b rows = map (\<lambda>r. if user_id r = uid then r\<lparr>active := b\<rparr> else r) rows"

subsection \<open>\<open>audit_users\<close>\<close>

text \<open>The dictionary \<open>user_info\<close> built for every row.\<close>

record user_info =
  info_id :: string
  info_email :: string
  name :: string
  totp :: bool
  email_otp :: bool
  fido :: bool
  info_active :: bool
  info_role :: string
  exempt :: bool

definition or_empty :: "string option \<Rightarrow> string" where
  "or_empty s = (case s of Some v \<Rightarrow> v | None \<Rightarrow> [])"

definition make_user_info :: "string list \<Rightarrow> person \<Rightarrow> user_info" where
  "make_user_info exempt_list u =
     \<lparr>info_id = user_id u,
      info_email = email_str u,
      name = strip (or_empty (first_name u) @ '' '' @ or_empty (last_name u)),
      totp = totp_enabled u,
      email_otp = email_otp_enabled u,
      fido = fido_enabled u,
      info_active = active u,
      info_role = role u,
      exempt = (email_str u \<in> set exempt_list)\<rparr>"

text \<open>The three lists the loop of \<open>audit_users\<close> fills.\<close>

record buckets =
  users_without_2fa :: "user_info list"
  users_with_2fa :: "user_info list"
  inactive_users :: "user_info list"

fun audit_loop :: "string list \<Rightarrow> person list \<Rightarrow> buckets \<Rightarrow> buckets" where
  "audit_loop exempt_list [] b = b"
| "audit_loop exempt_list (u # us) b =
     (let user_info = make_user_info exempt_list u in
      audit_loop exempt_list us
        (if \<not> active u then b\<lparr>inactive_users := inactive_users b @ [user_info]\<rparr>
         else if has_2fa u then b\<lparr>users_with_2fa := users_with_2fa b @ [user_info]\<rparr>
         else b\<lparr>users_without_2fa := users_without_2fa b @ [user_info]\<rparr>))"

definition empty_buckets :: buckets where
  "empty_buckets = \<lparr>users_without_2fa = [], users_with_2fa = [], inactive_users = []\<rparr>"

text \<open>
  \<open>audit_users\<close>: the value returned, and the lists the report prints (none when the
  query raised).
\<close>

definition audit_users :: "db \<Rightarrow> string list \<Rightarrow> int \<times> buckets option" where
  "audit_users d exempt_list =
     (if select_fails d then (- 1, None)
      else
        let users = select_all_users (table d);
            b = audit_loop exempt_list users empty_buckets
        in (int (length (users_without_2fa b)), Some b))"

subsection \<open>\<open>enforce_2fa\<close>\<close>

text \<open>
  The loop that disables: the table as the open transaction sees it, the counter, the
  ids of the \<open>UPDATE\<close> statements sent, and whether the transaction is aborted. Every
  \<open>UPDATE\<close> stands in its own \<open>try\<close>: one that raises, of its own or because the
  transaction is aborted already, is reported and the loop goes on.
\<close>

record batch =
  pending :: "person list"
  disabled_count :: nat
  updates :: "string list"
  aborted :: bool

fun disable_loop :: "(string \<Rightarrow> bool) \<Rightarrow> person list \<Rightarrow> batch \<Rightarrow> batch" where
  "disable_loop fails [] st = st"
| "disable_loop fails (u # us) st =
     disable_loop fails us
       (if aborted st \<or> fails (user_id u)
        then st\<lparr>updates := updates st @ [user_id u], aborted := True\<rparr>
        else st\<lparr>pending := set_active (user_id u) False (pending st),
                disabled_count := disabled_count st + 1,
                updates := updates st @ [user_id u]\<rparr>)"

text \<open>
  What a run of \<open>enforce_2fa\<close> leaves: the value returned, or the exception that leaves
  the function (\<open>Inl\<close>), the table as committed when the connection closes, and the ids
  of the \<open>UPDATE\<close> statements sent.
\<close>

record run =
  result :: "db_exn + int"
  stored :: "person list"
  sent :: "string list"

text \<open>
  The clause \<open>except psycopg2.Error\<close> of \<open>enforce_2fa\<close>: it calls \<open>conn.rollback()\<close>
  and returns the sentinel; an exception of the rollback leaves the function.
\<close>

definition on_database_error :: "db \<Rightarrow> db_exn + int" where
  "on_database_error d = (if rollback_fails d then Inl Psycopg2Error else Inr (- 1))"

definition users_to_disable :: "string list \<Rightarrow> person list \<Rightarrow> person list" where
  "users_to_disable exempt_list rows =
     filter (\<lambda>u. email_str u \<notin> set exempt_list) (select_active_without_2fa rows)"

definition enforce_2fa :: "db \<Rightarrow> string list \<Rightarrow> string \<Rightarrow> run" where
  "enforce_2fa d exempt_list confirm =
     (if select_fails d
        then \<lparr>result = on_database_error d, stored = table d, sent = []\<rparr>
      else if select_active_without_2fa (table d) = []
        then \<lparr>result = Inr 0, stored = table d, sent = []\<rparr>
      else if users_to_disable exempt_list (table d) = []
        then \<lparr>result = Inr 0, stored = table d, sent = []\<rparr>
      else if lower confirm \<noteq> ''yes''
        then \<lparr>result = Inr 0, stored = table d, sent = []\<rparr>
      else
        let st = disable_loop (update_fails d) (users_to_disable exempt_list (table d))
                   \<lparr>pending = table d, disabled_count = 0, updates = [], aborted = False\<rparr>
        in if commit_fails d
           then \<lparr>result = on_database_error d, stored = table d, sent = updates st\<rparr>
           else \<lparr>result = Inr (int (disabled_count st)),
                 stored = (if aborted st then table d else pending st),
                 sent = updates st\<rparr>)"


section \<open>Sample inputs\<close>

text \<open>An active account with no second factor, and the same person logged in.\<close>

definition alice :: person where
  "alice = \<lparr>user_id = ''1'', email = Some ''a@x.com'', first_name = Some ''Ann'',
     last_name = None, totp_enabled = False, email_otp_enabled = False,
     fido_enabled = False, active = True, role = ''user''\<rparr>"

definition alice_logged_in :: login_user where
  "alice_logged_in = person.extend alice (login_user.fields True)"

definition enforcing :: middleware where
  "enforcing = \<lparr>require_2fa = True, exempt_users = []\<rparr>"

definition no_fault :: "step \<Rightarrow> exn option" where
  "no_fault = (\<lambda>s. None)"

text \<open>A session that knows alice; no bearer token.\<close>

definition session_env :: env where
  "session_env = \<lparr>fault = no_fault, current_user = Some alice_logged_in,
     jwt_identity = None, get_person = (\<lambda>uid. None)\<rparr>"

text \<open>
  flask_login is installed and sees an anonymous caller, while the request carries a
  valid bearer token of alice.
\<close>

definition bearer_only_env :: env where
  "bearer_only_env = \<lparr>fault = no_fault,
     current_user = Some (person.extend alice (login_user.fields False)),
     jwt_identity = Some ''1'',
     get_person = (\<lambda>uid. if uid = ''1'' then Some alice else None)\<rparr>"

text \<open>
  flask_login is not installed and the imports of the \<open>ImportError\<close> clause raise
  something that is not an \<open>ImportError\<close>.
\<close>

definition broken_import_env :: env where
  "broken_import_env = \<lparr>fault = no_fault(ImportFlaskLogin := Some ImportError,
                                         ImportJwt := Some OtherException),
     current_user = None, jwt_identity = None, get_person = (\<lambda>uid. None)\<rparr>"

definition post_to :: "string \<Rightarrow> request" where
  "post_to p = \<lparr>path = p, method = ''POST'', is_json = False, headers = Map.empty\<rparr>"

definition get_from :: "string \<Rightarrow> request" where
  "get_from p = \<lparr>path = p, method = ''GET'', is_json = False, headers = Map.empty\<rparr>"

text \<open>A database holding alice and bob, where the \<open>UPDATE\<close> of bob fails.\<close>

definition bob :: person where
  "bob = alice\<lparr>user_id := ''2'', email := Some ''b@x.com''\<rparr>"

definition sample_db :: db where
  "sample_db = \<lparr>table = [alice, bob], select_fails = False,
     update_fails = (\<lambda>uid. uid = ''2''), commit_fails = False, rollback_fails = False\<rparr>"


text \<open>
  The look-up of the session raises an \<open>ImportError\<close>, and the request carries a valid
  bearer token of alice.
\<close>

definition session_import_error_env :: env where
  "session_import_error_env = \<lparr>fault = no_fault(CurrentUser := Some ImportError),
     current_user = None, jwt_identity = Some ''1'',
     get_person = (\<lambda>uid. if uid = ''1'' then Some alice else None)\<rparr>"

definition mixed_case_environ :: "string \<rightharpoonup> string" where
  "mixed_case_environ = [''REQUIRE_2FA'' \<mapsto> ''True'', ''2FA_EXEMPT_USERS'' \<mapsto> ''A@X.com'']"

section \<open>Properties of the gate\<close>

lemmas comp_defs = ret_def call_def bind_def try_call_def

lemma lstrip_slash_idem: "lstrip_slash (lstrip_slash s) = lstrip_slash s"
  by (simp add: lstrip_slash_def dropWhile_idem)

lemma gate_allowed_pattern:
  assumes "p \<in> set allowed_patterns" and "startswith (lstrip_slash (path req)) p"
  shows "check_2fa_requirement mw e req = ret Allow"
proof -
  have "list_ex (startswith (lstrip_slash (path req))) allowed_patterns"
    using assms by (auto simp: list_ex_iff)
  then have "is_allowed_route req (lstrip_slash (path req))"
    by (simp add: is_allowed_route_def lstrip_slash_idem)
  then show ?thesis by (simp add: check_2fa_requirement_def)
qed

lemma alice_logged_in_simps [simp]:
  "email alice_logged_in = Some ''a@x.com''"
  "is_authenticated alice_logged_in"
  "\<not> totp_enabled alice_logged_in"
  "\<not> email_otp_enabled alice_logged_in"
  "\<not> fido_enabled alice_logged_in"
  by (simp_all add: alice_logged_in_def alice_def person.defs login_user.defs)

lemma post_to_simps [simp]:
  "path (post_to p) = p" "method (post_to p) = ''POST''"
  "\<not> is_json (post_to p)" "headers (post_to p) = Map.empty"
  by (simp_all add: post_to_def)

lemma get_from_simps [simp]:
  "path (get_from p) = p" "method (get_from p) = ''GET''"
  "\<not> is_json (get_from p)" "headers (get_from p) = Map.empty"
  by (simp_all add: get_from_def)

lemma projects_not_allowed:
  "\<not> is_allowed_route (post_to ''/projects'') (lstrip_slash ''/projects'')"
  by (simp add: is_allowed_route_def lstrip_slash_def allowed_patterns_def auth_endpoints_def
      twofa_endpoints_def legacy_2fa_endpoints_def startswith_def)

text \<open>
  C7. A request whose path, after stripping leading slashes, begins with one of the
  authentication or 2FA self-configuration prefixes of the allow-list is allowed, with
  enforcement on, whatever the caller and the method; no identity source is consulted.
\<close>

theorem gate_allows_auth_endpoints:
  assumes "require_2fa mw"
    and "p \<in> set (auth_endpoints @ twofa_endpoints @ legacy_2fa_endpoints)"
    and "startswith (lstrip_slash (path req)) p"
  shows "gate mw e req = Inr Allow \<and> trace mw e req = []"
proof -
  have "p \<in> set allowed_patterns"
    using assms(2) by (auto simp: allowed_patterns_def)
  then show ?thesis
    using gate_allowed_pattern[OF _ assms(3)] by (simp add: gate_def trace_def ret_def)
qed

theorem gate_allows_auth_endpoints_witness:
  "require_2fa enforcing
   \<and> ''api/auth/totp'' \<in> set (auth_endpoints @ twofa_endpoints @ legacy_2fa_endpoints)
   \<and> startswith (lstrip_slash (path (post_to ''//api/auth/totp/setup''))) ''api/auth/totp''
   \<and> gate enforcing broken_import_env (post_to ''//api/auth/totp/setup'') = Inr Allow
   \<and> trace enforcing broken_import_env (post_to ''//api/auth/totp/setup'') = []"
proof -
  have a: "require_2fa enforcing" by (simp add: enforcing_def)
  have b: "''api/auth/totp'' \<in> set (auth_endpoints @ twofa_endpoints @ legacy_2fa_endpoints)"
    by (simp add: twofa_endpoints_def)
  have c: "startswith (lstrip_slash (path (post_to ''//api/auth/totp/setup''))) ''api/auth/totp''"
    by (simp add: startswith_def lstrip_slash_def)
  show ?thesis
    using a b c gate_allows_auth_endpoints[OF a b c, of broken_import_env] by simp
qed

text \<open>
  C10. Matching against the allow-list is prefix matching on the normalized path: every
  request whose path, after stripping leading slashes, begins with the bare string
  \<open>config\<close> or \<open>health\<close> is allowed, with enforcement on, whatever the method and the
  caller.
\<close>

theorem gate_allows_config_health_prefix:
  assumes "require_2fa mw"
    and "startswith (lstrip_slash (path req)) ''config''
         \<or> startswith (lstrip_slash (path req)) ''health''"
  shows "gate mw e req = Inr Allow"
proof -
  have "''config'' \<in> set allowed_patterns" and "''health'' \<in> set allowed_patterns"
    by (simp_all add: allowed_patterns_def)
  then show ?thesis
    using assms(2) gate_allowed_pattern[of _ req mw e] by (auto simp: gate_def ret_def)
qed

theorem gate_allows_config_health_prefix_witness:
  "require_2fa enforcing
   \<and> startswith (lstrip_slash (path (post_to ''/configure-anything''))) ''config''
   \<and> gate enforcing session_env (post_to ''/configure-anything'') = Inr Allow
   \<and> startswith (lstrip_slash (path (post_to ''/healthz/x''))) ''health''
   \<and> gate enforcing session_env (post_to ''/healthz/x'') = Inr Allow"
proof -
  have a: "require_2fa enforcing" by (simp add: enforcing_def)
  have b: "startswith (lstrip_slash (path (post_to ''/configure-anything''))) ''config''"
    by (simp add: startswith_def lstrip_slash_def)
  have c: "startswith (lstrip_slash (path (post_to ''/healthz/x''))) ''health''"
    by (simp add: startswith_def lstrip_slash_def)
  show ?thesis
    using a b c
      gate_allows_config_health_prefix[OF a disjI1[OF b], of session_env]
      gate_allows_config_health_prefix[OF a disjI2[OF c], of session_env]
    by simp
qed

lemma data_not_listed:
  "\<not> list_ex (startswith (''data/'' @ s)) allowed_patterns"
  "\<not> list_ex (startswith (''api/data/'' @ s)) allowed_patterns"
  by (simp_all add: allowed_patterns_def auth_endpoints_def twofa_endpoints_def
      legacy_2fa_endpoints_def startswith_def)

text \<open>
  C8. A GET request whose normalized path is under \<open>data/\<close> or \<open>api/data/\<close> is allowed,
  with enforcement on, whatever the caller (also one with no second factor), although no
  entry of the allow-list matches such a path.
\<close>

theorem gate_allows_get_data:
  assumes "require_2fa mw" and "method req = ''GET''"
    and "startswith (lstrip_slash (path req)) ''data/''
         \<or> startswith (lstrip_slash (path req)) ''api/data/''"
  shows "gate mw e req = Inr Allow
         \<and> \<not> list_ex (startswith (lstrip_slash (path req))) allowed_patterns"
proof -
  have "is_allowed_route req (lstrip_slash (path req))"
    using assms(2,3) by (simp add: is_allowed_route_def lstrip_slash_idem)
  then have g: "gate mw e req = Inr Allow"
    by (simp add: gate_def check_2fa_requirement_def ret_def)
  from assms(3) obtain s where
    "lstrip_slash (path req) = ''data/'' @ s \<or> lstrip_slash (path req) = ''api/data/'' @ s"
    unfolding startswith_def prefix_def by auto
  then have "\<not> list_ex (startswith (lstrip_slash (path req))) allowed_patterns"
    using data_not_listed by metis
  with g show ?thesis by simp
qed

theorem gate_allows_get_data_witness:
  "require_2fa enforcing \<and> method (get_from ''/data/projects'') = ''GET''
   \<and> startswith (lstrip_slash (path (get_from ''/data/projects''))) ''data/''
   \<and> current_user session_env = Some alice_logged_in \<and> \<not> has_2fa alice_logged_in
   \<and> gate enforcing session_env (get_from ''/data/projects'') = Inr Allow"
proof -
  have a: "require_2fa enforcing" by (simp add: enforcing_def)
  have b: "method (get_from ''/data/projects'') = ''GET''" by simp
  have c: "startswith (lstrip_slash (path (get_from ''/data/projects''))) ''data/''"
    by (simp add: startswith_def lstrip_slash_def)
  show ?thesis
    using a b c gate_allows_get_data[OF a b disjI1[OF c], of session_env]
    by (simp add: session_env_def has_2fa_def)
qed

text \<open>
  When flask_login is imported and reports the caller as not authenticated, the gate
  allows the request after these two steps.
\<close>

lemma session_unauthenticated_allows:
  assumes "require_2fa mw" and "\<not> is_allowed_route req (lstrip_slash (path req))"
  shows "fault e ImportFlaskLogin = None \<and> fault e CurrentUser = None
         \<and> (case current_user e of None \<Rightarrow> True | Some u \<Rightarrow> \<not> is_authenticated u) \<longrightarrow>
         gate mw e req = Inr Allow \<and> trace mw e req = [ImportFlaskLogin, CurrentUser]"
  using assms
  by (auto simp: gate_def trace_def check_2fa_requirement_def session_path_def comp_defs
      split: option.splits)

text \<open>
  The same request and token, on an installation without flask_login, is blocked: the
  bearer token is consulted only after an \<open>ImportError\<close>.
\<close>

lemma bearer_token_blocked_without_flask_login:
  "gate enforcing (bearer_only_env\<lparr>fault := no_fault(ImportFlaskLogin := Some ImportError)\<rparr>)
     (post_to ''/projects'')
   = Inr (Block \<lparr>status_code = 403, payload = HtmlPage\<rparr>)"
  using projects_not_allowed
  by (simp add: gate_def check_2fa_requirement_def session_path_def token_path_def
      jwt_lookup_def jwt_body_def require_for_def comp_defs bearer_only_env_def no_fault_def enforcing_def
      is_exempt_user_def alice_def handle_2fa_required_def is_api_request_def startswith_def
      header_get_def)

lemma handle_2fa_required_status: "status_code (handle_2fa_required req em) = 403"
  by (simp add: handle_2fa_required_def)

lemma handle_2fa_required_field:
  "has_2fa_required_field (handle_2fa_required req em) = is_api_request req"
  by (simp add: handle_2fa_required_def has_2fa_required_field_def)

lemma handle_2fa_required_html:
  "\<not> is_api_request req \<Longrightarrow> payload (handle_2fa_required req em) = HtmlPage"
  by (simp add: handle_2fa_required_def)

lemma not_listed_not_exempt:
  "\<forall>a. em = Some a \<longrightarrow> lower a \<notin> set (exempt_users mw) \<Longrightarrow> \<not> is_exempt_user mw em"
  by (simp add: is_exempt_user_def split: option.splits)

lemma session_block:
  assumes "require_2fa mw" and "\<not> is_allowed_route req (lstrip_slash (path req))"
    and "method req \<noteq> ''GET''"
    and "fault e ImportFlaskLogin = None" and "fault e CurrentUser = None"
    and "fault e IsExempt = None" and "fault e Has2FA = None" and "fault e HandleRequired = None"
    and "current_user e = Some u" and "is_authenticated u"
    and "\<not> is_exempt_user mw (email u)" and "\<not> has_2fa u"
  shows "gate mw e req = Inr (Block (handle_2fa_required req (email u)))"
  using assms
  by (simp add: gate_def check_2fa_requirement_def session_path_def require_for_def comp_defs
      has_2fa_enabled_def has_2fa_def)

lemma token_block:
  assumes "require_2fa mw" and "\<not> is_allowed_route req (lstrip_slash (path req))"
    and "method req \<noteq> ''GET''"
    and "fault e ImportFlaskLogin = Some ImportError"
    and "fault e ImportJwt = None" and "fault e VerifyJwt = None"
    and "fault e GetJwtIdentity = None" and "fault e GetPerson = None"
    and "fault e IsExempt = None" and "fault e Has2FA = None" and "fault e HandleRequired = None"
    and "jwt_identity e = Some uid" and "uid \<noteq> []" and "get_person e uid = Some u"
    and "\<not> is_exempt_user mw (email u)" and "\<not> has_2fa u"
  shows "gate mw e req = Inr (Block (handle_2fa_required req (email u)))"
  using assms
  by (simp add: gate_def check_2fa_requirement_def session_path_def token_path_def
      jwt_lookup_def jwt_body_def require_for_def comp_defs has_2fa_def)

text \<open>
  C2, as the claim states it, fails: a POST to \<open>/projects\<close> that is not classified as an
  API request, from a logged-in caller with no second factor and no exemption, is blocked
  with status 403 and the HTML page, whose body has no field \<open>2fa_required\<close>.
\<close>

theorem block_body_html_counterexample:
  "require_2fa enforcing \<and> method (post_to ''/projects'') = ''POST''
   \<and> \<not> is_allowed_route (post_to ''/projects'') (lstrip_slash (path (post_to ''/projects'')))
   \<and> current_user session_env = Some alice_logged_in \<and> is_authenticated alice_logged_in
   \<and> \<not> is_exempt_user enforcing (email alice_logged_in) \<and> \<not> has_2fa alice_logged_in
   \<and> gate enforcing session_env (post_to ''/projects'')
       = Inr (Block \<lparr>status_code = 403, payload = HtmlPage\<rparr>)
   \<and> \<not> has_2fa_required_field \<lparr>status_code = 403, payload = HtmlPage\<rparr>"
  using projects_not_allowed
  by (simp add: gate_def check_2fa_requirement_def session_path_def require_for_def comp_defs
      session_env_def no_fault_def enforcing_def is_exempt_user_def has_2fa_def
      has_2fa_enabled_def handle_2fa_required_def is_api_request_def startswith_def
      header_get_def has_2fa_required_field_def)

text \<open>
  C2, amended. For every POST request with enforcement on, to a path that is not
  allow-listed, from a caller resolved without error (by the session, or by the bearer
  token when flask_login cannot be imported) whose lower-cased email is not in the exempt
  list and whose three flags are all false, the gate returns Block with status 403; the
  body is the JSON object with the field \<open>2fa_required: true\<close> when the request is
  classified as an API request, and the fixed HTML page otherwise.
\<close>

theorem block_post_without_2fa:
  assumes "require_2fa mw" and "method req = ''POST''"
    and "\<not> is_allowed_route req (lstrip_slash (path req))"
    and "\<forall>s. s \<noteq> ImportFlaskLogin \<longrightarrow> fault e s = None"
    and "(fault e ImportFlaskLogin = None \<and> current_user e = Some cu \<and> is_authenticated cu
            \<and> email cu = em \<and> \<not> has_2fa cu)
         \<or> (fault e ImportFlaskLogin = Some ImportError \<and> jwt_identity e = Some uid
            \<and> uid \<noteq> [] \<and> get_person e uid = Some p \<and> email p = em \<and> \<not> has_2fa p)"
    and "\<forall>a. em = Some a \<longrightarrow> lower a \<notin> set (exempt_users mw)"
  shows "gate mw e req = Inr (Block (handle_2fa_required req em))
         \<and> status_code (handle_2fa_required req em) = 403
         \<and> (is_api_request req \<longrightarrow> has_2fa_required_field (handle_2fa_required req em))
         \<and> (\<not> is_api_request req \<longrightarrow> payload (handle_2fa_required req em) = HtmlPage)"
proof -
  have m: "method req \<noteq> ''GET''" using assms(2) by simp
  have ne: "\<not> is_exempt_user mw em" using assms(6) by (rule not_listed_not_exempt)
  have f: "fault e CurrentUser = None" "fault e IsExempt = None" "fault e Has2FA = None"
    "fault e HandleRequired = None" "fault e ImportJwt = None" "fault e VerifyJwt = None"
    "fault e GetJwtIdentity = None" "fault e GetPerson = None"
    using assms(4) by simp_all
  have "gate mw e req = Inr (Block (handle_2fa_required req em))"
    using assms(5)
  proof
    assume s: "fault e ImportFlaskLogin = None \<and> current_user e = Some cu \<and> is_authenticated cu
            \<and> email cu = em \<and> \<not> has_2fa cu"
    then show ?thesis
      using session_block[OF assms(1) assms(3) m _ f(1) f(2) f(3) f(4), of cu] ne by simp
  next
    assume t: "fault e ImportFlaskLogin = Some ImportError \<and> jwt_identity e = Some uid
            \<and> uid \<noteq> [] \<and> get_person e uid = Some p \<and> email p = em \<and> \<not> has_2fa p"
    then show ?thesis
      using token_block[OF assms(1) assms(3) m _ f(5) f(6) f(7) f(8) f(2) f(3) f(4), of uid p] ne
      by simp
  qed
  then show ?thesis
    by (simp add: handle_2fa_required_status handle_2fa_required_field handle_2fa_required_html)
qed

theorem block_post_without_2fa_witness:
  "require_2fa enforcing \<and> method (post_to ''/actions/tasks'') = ''POST''
   \<and> \<not> is_allowed_route (post_to ''/actions/tasks'') (lstrip_slash (path (post_to ''/actions/tasks'')))
   \<and> fault session_env = no_fault
   \<and> current_user session_env = Some alice_logged_in \<and> is_authenticated alice_logged_in
   \<and> email alice_logged_in = Some ''a@x.com'' \<and> \<not> has_2fa alice_logged_in
   \<and> lower ''a@x.com'' \<notin> set (exempt_users enforcing)
   \<and> is_api_request (post_to ''/actions/tasks'')
   \<and> gate enforcing session_env (post_to ''/actions/tasks'')
       = Inr (Block (handle_2fa_required (post_to ''/actions/tasks'') (Some ''a@x.com'')))
   \<and> status_code (handle_2fa_required (post_to ''/actions/tasks'') (Some ''a@x.com'')) = 403
   \<and> has_2fa_required_field (handle_2fa_required (post_to ''/actions/tasks'') (Some ''a@x.com''))"
proof -
  have a: "require_2fa enforcing" by (simp add: enforcing_def)
  have b: "method (post_to ''/actions/tasks'') = ''POST''" by simp
  have c: "\<not> is_allowed_route (post_to ''/actions/tasks'')
             (lstrip_slash (path (post_to ''/actions/tasks'')))"
    by (simp add: is_allowed_route_def lstrip_slash_def allowed_patterns_def auth_endpoints_def
        twofa_endpoints_def legacy_2fa_endpoints_def startswith_def)
  have d: "\<forall>s. s \<noteq> ImportFlaskLogin \<longrightarrow> fault session_env s = None"
    by (simp add: session_env_def no_fault_def)
  have f: "(fault session_env ImportFlaskLogin = None
              \<and> current_user session_env = Some alice_logged_in
              \<and> is_authenticated alice_logged_in
              \<and> email alice_logged_in = Some ''a@x.com'' \<and> \<not> has_2fa alice_logged_in)
           \<or> (fault session_env ImportFlaskLogin = Some ImportError
              \<and> jwt_identity session_env = Some ''1'' \<and> ''1'' \<noteq> []
              \<and> get_person session_env ''1'' = Some alice \<and> email alice = Some ''a@x.com''
              \<and> \<not> has_2fa alice)"
    by (simp add: session_env_def no_fault_def has_2fa_def)
  have g: "\<forall>a. Some ''a@x.com'' = Some a \<longrightarrow> lower a \<notin> set (exempt_users enforcing)"
    by (simp add: enforcing_def)
  have h: "is_api_request (post_to ''/actions/tasks'')"
    by (simp add: is_api_request_def startswith_def)
  show ?thesis
    using a b c d g h block_post_without_2fa[OF a b c d f g]
    by (simp add: session_env_def no_fault_def has_2fa_def)
qed

text \<open>
  C1. The gate is meant to fail open, and an exception raised inside the
  \<open>ImportError\<close> clause by its own import statements is not caught: with flask_login
  missing and those imports raising another exception, the handler raises instead of
  allowing the request.
\<close>

theorem gate_import_exception_escapes:
  "require_2fa enforcing
   \<and> \<not> is_allowed_route (post_to ''/projects'') (lstrip_slash (path (post_to ''/projects'')))
   \<and> gate enforcing broken_import_env (post_to ''/projects'') = Inl OtherException
   \<and> trace enforcing broken_import_env (post_to ''/projects'') = [ImportFlaskLogin, ImportJwt]"
  using projects_not_allowed
  by (simp add: gate_def trace_def check_2fa_requirement_def session_path_def token_path_def
      comp_defs broken_import_env_def no_fault_def enforcing_def)

text \<open>
  Everywhere else the handler returns: it lets an exception out only when the imports of
  the \<open>ImportError\<close> clause raise something that is not an \<open>ImportError\<close>.
\<close>

lemma require_for_result:
  "snd (require_for mw e req em fl) =
     (case fault e IsExempt of Some x \<Rightarrow> Inl x | None \<Rightarrow>
        if is_exempt_user mw em then Inr Allow
        else (case fault e Has2FA of Some x \<Rightarrow> Inl x | None \<Rightarrow>
          if fl \<or> method req = ''GET'' then Inr Allow
          else (case fault e HandleRequired of Some x \<Rightarrow> Inl x
                | None \<Rightarrow> Inr (Block (handle_2fa_required req em)))))"
  by (simp add: require_for_def comp_defs split: option.splits)

lemma token_path_returns:
  assumes "\<forall>x. fault e ImportJwt = Some x \<longrightarrow> x = ImportError"
  shows "\<exists>d. snd (token_path mw e req) = Inr d"
  using assms
  by (cases "jwt_lookup mw e req"; cases "snd (jwt_lookup mw e req)")
     (auto simp: token_path_def comp_defs split: option.splits)

lemma gate_returns:
  assumes "\<forall>x. fault e ImportJwt = Some x \<longrightarrow> x = ImportError"
  shows "\<exists>d. gate mw e req = Inr d"
proof -
  obtain d where d: "snd (token_path mw e req) = Inr d"
    using token_path_returns[OF assms] by blast
  show ?thesis using d
    by (cases "session_path mw e req"; cases "snd (session_path mw e req)";
        cases "token_path mw e req")
       (auto simp: gate_def check_2fa_requirement_def comp_defs split: option.splits)
qed

text \<open>
  A computation built from calls and \<open>bind\<close> alone runs straight; so do the helper
  methods, the session branch and the look-up behind the token.
\<close>

lemma straight_ret: "straight e (ret v)"
  by (simp add: straight_def ret_def)

lemma straight_call: "straight e (call e s v)"
  by (simp add: straight_def call_def split: option.splits)

lemma straight_bind:
  assumes "straight e m" and "\<And>v. straight e (k v)"
  shows "straight e (bind m k)"
proof (cases m)
  case (Pair t r)
  show ?thesis
  proof (cases r)
    case (Inl x)
    then show ?thesis
      using assms(1) Pair by (simp add: straight_def bind_def try_call_def)
  next
    case (Inr v)
    obtain t' r' where k: "k v = (t', r')" by (cases "k v")
    have m: "list_all (\<lambda>s. fault e s = None) t"
      using assms(1) Pair Inr by (simp add: straight_def)
    have b: "bind m k = (t @ t', r')"
      using Pair Inr k by (simp add: bind_def try_call_def)
    show ?thesis
    proof (cases r')
      case (Inl x)
      then have "t' \<noteq> [] \<and> fault e (last t') = Some x
                 \<and> list_all (\<lambda>s. fault e s = None) (butlast t')"
        using assms(2)[of v] k by (simp add: straight_def)
      then show ?thesis using m b Inl by (simp add: straight_def butlast_append)
    next
      case (Inr w)
      then have "list_all (\<lambda>s. fault e s = None) t'"
        using assms(2)[of v] k by (simp add: straight_def)
      then show ?thesis using m b Inr by (simp add: straight_def)
    qed
  qed
qed

lemma straight_require_for: "straight e (require_for mw e req em fl)"
  unfolding require_for_def
  by (intro straight_bind straight_call) (simp_all add: straight_ret straight_bind straight_call)

lemma straight_session: "straight e (session_path mw e req)"
  unfolding session_path_def
  by (intro straight_bind straight_call)
     (simp add: straight_ret straight_require_for split: option.splits)

lemma straight_jwt_body: "straight e (jwt_body mw e req)"
  unfolding jwt_body_def
  by (intro straight_bind straight_call)
     (auto simp: straight_ret straight_require_for split: option.splits
           intro!: straight_bind straight_call)

lemma snd_ret: "snd (ret v) = Inr v"
  by (simp add: ret_def)

lemma snd_call: "snd (call e s v) = (case fault e s of Some x \<Rightarrow> Inl x | None \<Rightarrow> Inr v)"
  by (simp add: call_def)

lemma snd_try_call:
  "snd (try_call m h k) =
     (case snd m of
        Inl x \<Rightarrow> (case h x of Some c \<Rightarrow> snd c | None \<Rightarrow> Inl x)
      | Inr v \<Rightarrow> snd (k v))"
  by (cases m; cases "snd m") (auto simp: try_call_def split: option.splits prod.splits)

lemma snd_bind: "snd (bind m k) = (case snd m of Inl x \<Rightarrow> Inl x | Inr v \<Rightarrow> snd (k v))"
  by (simp add: bind_def snd_try_call split: sum.splits)

lemma fst_try_call:
  "fst (try_call m h k) =
     (case snd m of
        Inl x \<Rightarrow> (case h x of Some c \<Rightarrow> fst m @ fst c | None \<Rightarrow> fst m)
      | Inr v \<Rightarrow> fst m @ fst (k v))"
  by (cases m; cases "snd m") (auto simp: try_call_def split: option.splits prod.splits)

lemma require_for_block:
  assumes "snd (require_for mw e req em fl) = Inr (Block r)"
  shows "fault e IsExempt = None \<and> fault e Has2FA = None \<and> fault e HandleRequired = None
         \<and> \<not> is_exempt_user mw em \<and> \<not> fl \<and> method req \<noteq> ''GET''
         \<and> r = handle_2fa_required req em"
  using assms unfolding require_for_result
  by (auto split: option.splits if_splits)

lemma jwt_body_block:
  assumes "snd (jwt_body mw e req) = Inr (Block r)"
  shows "\<exists>em fl. snd (require_for mw e req em fl) = Inr (Block r)"
  using assms
  by (auto simp: jwt_body_def snd_bind snd_call snd_ret split: option.splits if_splits sum.splits)

lemma session_block_inner:
  assumes "snd (session_path mw e req) = Inr (Block r)"
  shows "\<exists>em fl. snd (require_for mw e req em fl) = Inr (Block r)"
  using assms
  by (auto simp: session_path_def snd_bind snd_call snd_ret
      split: option.splits if_splits sum.splits)

lemma token_path_block:
  assumes "snd (token_path mw e req) = Inr (Block r)"
  shows "snd (jwt_body mw e req) = Inr (Block r)
         \<and> list_all (\<lambda>s. fault e s = None) (fst (token_path mw e req))"
proof -
  have b: "snd (jwt_body mw e req) = Inr (Block r) \<and> fault e ImportJwt = None
           \<and> fault e VerifyJwt = None"
    using assms
    by (auto simp: token_path_def jwt_lookup_def snd_try_call snd_bind snd_call snd_ret ret_def
        split: option.splits if_splits sum.splits)
  then have c: "list_all (\<lambda>s. fault e s = None) (fst (jwt_body mw e req))"
    using straight_jwt_body[of e mw req] by (simp add: straight_def)
  have "fst (token_path mw e req) = [ImportJwt, VerifyJwt] @ fst (jwt_body mw e req)"
    using b
    by (simp add: token_path_def jwt_lookup_def fst_try_call snd_try_call bind_def call_def
        ret_def)
  then show ?thesis using b c by simp
qed

lemma session_steps:
  "set (fst (session_path mw e req))
     \<subseteq> {ImportFlaskLogin, CurrentUser, IsExempt, Has2FA, HandleRequired}"
  by (auto simp: session_path_def require_for_def comp_defs split: option.splits if_splits)

text \<open>
  When the gate blocks, it is on the path that ends in \<open>_handle_2fa_required\<close>:
  enforcement is on, the route is not allowed, the method is not GET, the caller is not
  exempt, the response is the one of status 403; and no step raised, but for an
  \<open>ImportError\<close> of the session branch that handed the request to the token branch.
\<close>

lemma gate_block_only_step9:
  assumes "gate mw e req = Inr (Block r)"
  shows "require_2fa mw \<and> \<not> is_allowed_route req (lstrip_slash (path req))
         \<and> method req \<noteq> ''GET'' \<and> status_code r = 403
         \<and> (\<exists>em. r = handle_2fa_required req em \<and> \<not> is_exempt_user mw em)
         \<and> (\<forall>s\<in>set (trace mw e req). \<forall>x. fault e s = Some x \<longrightarrow>
               x = ImportError \<and> (s = ImportFlaskLogin \<or> s = CurrentUser))"
proof -
  let ?h = "\<lambda>x. if x = ImportError then Some (token_path mw e req) else Some (ret Allow)"
  let ?S = "fst (session_path mw e req)"
  have on: "require_2fa mw" and na: "\<not> is_allowed_route req (lstrip_slash (path req))"
    using assms by (auto simp: gate_def check_2fa_requirement_def ret_def split: if_splits)
  have c: "check_2fa_requirement mw e req = try_call (session_path mw e req) ?h ret"
    using on na by (simp add: check_2fa_requirement_def)
  have st: "straight e (session_path mw e req)" by (rule straight_session)
  show ?thesis
  proof (cases "snd (session_path mw e req)")
    case (Inr d)
    then have d: "snd (session_path mw e req) = Inr (Block r)"
      using assms c by (simp add: gate_def snd_try_call snd_ret)
    then obtain em fl where "snd (require_for mw e req em fl) = Inr (Block r)"
      using session_block_inner by blast
    then have f: "\<not> is_exempt_user mw em \<and> method req \<noteq> ''GET''
                  \<and> r = handle_2fa_required req em"
      using require_for_block by blast
    have "trace mw e req = ?S"
      using c d by (simp add: trace_def fst_try_call ret_def)
    moreover have "list_all (\<lambda>s. fault e s = None) ?S"
      using st d by (simp add: straight_def)
    ultimately have "\<forall>s\<in>set (trace mw e req). fault e s = None"
      by (simp add: list_all_iff)
    then show ?thesis using on na f by (auto simp: handle_2fa_required_status)
  next
    case (Inl x)
    have x: "x = ImportError"
      using assms c Inl by (auto simp: gate_def snd_try_call snd_ret split: if_splits)
    then have t: "snd (token_path mw e req) = Inr (Block r)"
      using assms c Inl by (simp add: gate_def snd_try_call)
    then have b: "snd (jwt_body mw e req) = Inr (Block r)"
      and cl: "list_all (\<lambda>s. fault e s = None) (fst (token_path mw e req))"
      using token_path_block by blast+
    obtain em fl where "snd (require_for mw e req em fl) = Inr (Block r)"
      using jwt_body_block[OF b] by blast
    then have f: "fault e IsExempt = None \<and> fault e Has2FA = None
        \<and> fault e HandleRequired = None
        \<and> \<not> is_exempt_user mw em \<and> method req \<noteq> ''GET'' \<and> r = handle_2fa_required req em"
      using require_for_block by blast
    have tr: "trace mw e req = ?S @ fst (token_path mw e req)"
      using c Inl x by (simp add: trace_def fst_try_call)
    have s1: "?S \<noteq> []"
      and s2: "fault e (last ?S) = Some ImportError"
      and s3: "list_all (\<lambda>s. fault e s = None) (butlast ?S)"
      using st Inl x by (simp_all add: straight_def)
    have "last ?S \<in> set ?S" using s1 by simp
    then have l: "last ?S = ImportFlaskLogin \<or> last ?S = CurrentUser"
      using session_steps[of mw e req] s2 f by auto
    have "\<forall>s\<in>set ?S. \<forall>y. fault e s = Some y \<longrightarrow>
             y = ImportError \<and> (s = ImportFlaskLogin \<or> s = CurrentUser)"
    proof (intro ballI allI impI)
      fix s y
      assume a: "s \<in> set ?S" and b': "fault e s = Some y"
      have "set ?S = insert (last ?S) (set (butlast ?S))"
        using s1 by (cases ?S rule: rev_cases) auto
      then have "s \<in> set (butlast ?S) \<or> s = last ?S" using a by auto
      then have "s = last ?S" using s3 b' by (auto simp: list_all_iff)
      then show "y = ImportError \<and> (s = ImportFlaskLogin \<or> s = CurrentUser)"
        using s2 b' l by auto
    qed
    moreover have "\<forall>s\<in>set (fst (token_path mw e req)). fault e s = None"
      using cl by (simp add: list_all_iff)
    ultimately have "\<forall>s\<in>set (trace mw e req). \<forall>y. fault e s = Some y \<longrightarrow>
               y = ImportError \<and> (s = ImportFlaskLogin \<or> s = CurrentUser)"
      using tr by auto
    then show ?thesis using on na f by (auto simp: handle_2fa_required_status)
  qed
qed

text \<open>
  The gate fails open everywhere else: when a step it took raised, the gate allows the
  request, unless the exception is an \<open>ImportError\<close> of the session branch, which hands
  the request to the token branch, or comes from the imports of that branch.
\<close>

lemma gate_fail_open:
  assumes "s \<in> set (trace mw e req)" and "fault e s = Some x"
    and "\<forall>y. fault e ImportJwt = Some y \<longrightarrow> y = ImportError"
    and "\<not> (x = ImportError \<and> (s = ImportFlaskLogin \<or> s = CurrentUser))"
  shows "gate mw e req = Inr Allow"
proof -
  obtain d where d: "gate mw e req = Inr d" using gate_returns[OF assms(3)] by blast
  show ?thesis
  proof (cases d)
    case Allow
    then show ?thesis using d by simp
  next
    case (Block r)
    then show ?thesis
      using gate_block_only_step9[of mw e req r] d assms(1,2,4) by blast
  qed
qed

lemma token_steps:
  "CurrentUser \<notin> set (fst (token_path mw e req))"
  by (auto simp: token_path_def jwt_lookup_def jwt_body_def require_for_def comp_defs
      split: option.splits if_splits)

lemma token_starts_with_import: "ImportJwt \<in> set (fst (token_path mw e req))"
  by (cases "try_call (jwt_lookup mw e req) (\<lambda>x. Some (ret Allow)) ret")
     (auto simp: token_path_def fst_try_call snd_try_call bind_def call_def ret_def
      split: option.splits sum.splits)

lemma session_starts_with_lookup:
  "fault e ImportFlaskLogin = None \<Longrightarrow> CurrentUser \<in> set (fst (session_path mw e req))"
  by (auto simp: session_path_def bind_def fst_try_call call_def split: option.splits sum.splits)

lemma trace_of_gate:
  assumes "require_2fa mw" and "\<not> is_allowed_route req (lstrip_slash (path req))"
  shows "trace mw e req =
           (if snd (session_path mw e req) = Inl ImportError
            then fst (session_path mw e req) @ fst (token_path mw e req)
            else fst (session_path mw e req))"
  using assms
  by (auto simp: trace_def check_2fa_requirement_def fst_try_call ret_def split: sum.splits)

text \<open>
  Unless a step of the session branch after its import raises an \<open>ImportError\<close>, a request
  consults one identity source at most: the session or the bearer token.
\<close>

lemma gate_one_identity_source:
  assumes "fault e CurrentUser \<noteq> Some ImportError" and "fault e IsExempt \<noteq> Some ImportError"
    and "fault e Has2FA \<noteq> Some ImportError" and "fault e HandleRequired \<noteq> Some ImportError"
  shows "\<not> (CurrentUser \<in> set (trace mw e req)
            \<and> set (trace mw e req) \<inter> {ImportJwt, VerifyJwt, GetJwtIdentity, GetPerson} \<noteq> {})"
proof (cases "require_2fa mw \<and> \<not> is_allowed_route req (lstrip_slash (path req))")
  case False
  then have "trace mw e req = []"
    by (auto simp: trace_def check_2fa_requirement_def ret_def)
  then show ?thesis by simp
next
  case True
  let ?S = "fst (session_path mw e req)"
  have tr: "trace mw e req =
           (if snd (session_path mw e req) = Inl ImportError
            then ?S @ fst (token_path mw e req) else ?S)"
    using True trace_of_gate by blast
  show ?thesis
  proof (cases "snd (session_path mw e req) = Inl ImportError")
    case False
    then have "trace mw e req = ?S" using tr by simp
    then show ?thesis using session_steps[of mw e req] by auto
  next
    case raised: True
    have st: "straight e (session_path mw e req)" by (rule straight_session)
    have s1: "?S \<noteq> []" and s2: "fault e (last ?S) = Some ImportError"
      using st raised by (simp_all add: straight_def)
    have "last ?S \<in> set ?S" using s1 by simp
    then have "last ?S = ImportFlaskLogin"
      using session_steps[of mw e req] s2 assms by auto
    then have "fault e ImportFlaskLogin = Some ImportError" using s2 by simp
    then have "?S = [ImportFlaskLogin]"
      by (simp add: session_path_def comp_defs)
    then show ?thesis using tr raised token_steps[of mw e req] by auto
  qed
qed

text \<open>
  C9, as the claim states it, fails: with flask_login imported, the look-up of the
  current user raising an \<open>ImportError\<close> and a bearer token of alice on the request, the
  gate consults the session and then the bearer token, and blocks.
\<close>

theorem two_identity_sources_counterexample:
  "require_2fa enforcing
   \<and> \<not> is_allowed_route (post_to ''/projects'') (lstrip_slash (path (post_to ''/projects'')))
   \<and> fault session_import_error_env ImportFlaskLogin = None
   \<and> trace enforcing session_import_error_env (post_to ''/projects'')
       = [ImportFlaskLogin, CurrentUser, ImportJwt, VerifyJwt, GetJwtIdentity, GetPerson,
          IsExempt, Has2FA, HandleRequired]
   \<and> gate enforcing session_import_error_env (post_to ''/projects'')
       = Inr (Block \<lparr>status_code = 403, payload = HtmlPage\<rparr>)"
  using projects_not_allowed
  by (simp add: gate_def trace_def check_2fa_requirement_def session_path_def token_path_def
      jwt_lookup_def jwt_body_def require_for_def comp_defs session_import_error_env_def
      no_fault_def enforcing_def is_exempt_user_def alice_def handle_2fa_required_def
      is_api_request_def startswith_def header_get_def)

text \<open>
  C9, amended. The identity source is chosen by what can be imported, not by the
  credentials of the request: the session is consulted whenever flask_login is imported,
  the bearer token when that import raises an \<open>ImportError\<close>; and a request consults one
  of the two at most, unless a step of the session branch after its import (the look-up
  of the current user, the exemption test, the flags, the blocking response) raises an
  \<open>ImportError\<close>, which the same clause catches. When flask_login is imported and reports
  the caller as not authenticated, the gate allows the request after these two steps and
  never consults the bearer token; so a mutating request that carries only a valid bearer
  token of a non-exempt person with no second factor is allowed.
\<close>

theorem gate_identity_source:
  assumes "require_2fa mw" and "\<not> is_allowed_route req (lstrip_slash (path req))"
  shows "(fault e CurrentUser \<noteq> Some ImportError \<and> fault e IsExempt \<noteq> Some ImportError
            \<and> fault e Has2FA \<noteq> Some ImportError \<and> fault e HandleRequired \<noteq> Some ImportError \<longrightarrow>
            \<not> (CurrentUser \<in> set (trace mw e req)
               \<and> set (trace mw e req) \<inter> {ImportJwt, VerifyJwt, GetJwtIdentity, GetPerson} \<noteq> {}))
         \<and> (fault e ImportFlaskLogin = None \<longrightarrow> CurrentUser \<in> set (trace mw e req))
         \<and> (fault e ImportFlaskLogin = Some ImportError \<longrightarrow>
              CurrentUser \<notin> set (trace mw e req) \<and> ImportJwt \<in> set (trace mw e req))
         \<and> (fault e ImportFlaskLogin = None \<and> fault e CurrentUser = None
              \<and> (case current_user e of None \<Rightarrow> True | Some u \<Rightarrow> \<not> is_authenticated u) \<longrightarrow>
              gate mw e req = Inr Allow \<and> trace mw e req = [ImportFlaskLogin, CurrentUser])"
proof -
  let ?S = "fst (session_path mw e req)"
  have tr: "trace mw e req =
           (if snd (session_path mw e req) = Inl ImportError
            then ?S @ fst (token_path mw e req) else ?S)"
    using assms by (rule trace_of_gate)
  have one: "fault e CurrentUser \<noteq> Some ImportError \<and> fault e IsExempt \<noteq> Some ImportError
            \<and> fault e Has2FA \<noteq> Some ImportError \<and> fault e HandleRequired \<noteq> Some ImportError \<longrightarrow>
            \<not> (CurrentUser \<in> set (trace mw e req)
               \<and> set (trace mw e req) \<inter> {ImportJwt, VerifyJwt, GetJwtIdentity, GetPerson} \<noteq> {})"
    using gate_one_identity_source[of e mw req] by blast
  have sess: "fault e ImportFlaskLogin = None \<longrightarrow> CurrentUser \<in> set (trace mw e req)"
    using session_starts_with_lookup[of e mw req] tr by auto
  have tok: "fault e ImportFlaskLogin = Some ImportError \<longrightarrow>
              CurrentUser \<notin> set (trace mw e req) \<and> ImportJwt \<in> set (trace mw e req)"
  proof
    assume f: "fault e ImportFlaskLogin = Some ImportError"
    then have "session_path mw e req = ([ImportFlaskLogin], Inl ImportError)"
      by (simp add: session_path_def comp_defs)
    then have "trace mw e req = ImportFlaskLogin # fst (token_path mw e req)"
      using tr by simp
    then show "CurrentUser \<notin> set (trace mw e req) \<and> ImportJwt \<in> set (trace mw e req)"
      using token_steps[of mw e req] token_starts_with_import[of mw e req] by simp
  qed
  have anon: "fault e ImportFlaskLogin = None \<and> fault e CurrentUser = None
              \<and> (case current_user e of None \<Rightarrow> True | Some u \<Rightarrow> \<not> is_authenticated u) \<longrightarrow>
              gate mw e req = Inr Allow \<and> trace mw e req = [ImportFlaskLogin, CurrentUser]"
    using session_unauthenticated_allows[OF assms, of e] by blast
  show ?thesis using one sess tok anon by blast
qed

theorem gate_identity_source_witness:
  "require_2fa enforcing
   \<and> \<not> is_allowed_route (post_to ''/projects'') (lstrip_slash (path (post_to ''/projects'')))
   \<and> fault bearer_only_env = no_fault
   \<and> (case current_user bearer_only_env of None \<Rightarrow> True | Some u \<Rightarrow> \<not> is_authenticated u)
   \<and> jwt_identity bearer_only_env = Some ''1''
   \<and> get_person bearer_only_env ''1'' = Some alice \<and> \<not> has_2fa alice
   \<and> \<not> is_exempt_user enforcing (email alice)
   \<and> gate enforcing bearer_only_env (post_to ''/projects'') = Inr Allow
   \<and> trace enforcing bearer_only_env (post_to ''/projects'') = [ImportFlaskLogin, CurrentUser]
   \<and> fault (bearer_only_env\<lparr>fault := no_fault(ImportFlaskLogin := Some ImportError)\<rparr>)
        ImportFlaskLogin = Some ImportError
   \<and> CurrentUser \<notin> set (trace enforcing
        (bearer_only_env\<lparr>fault := no_fault(ImportFlaskLogin := Some ImportError)\<rparr>)
        (post_to ''/projects''))
   \<and> ImportJwt \<in> set (trace enforcing
        (bearer_only_env\<lparr>fault := no_fault(ImportFlaskLogin := Some ImportError)\<rparr>)
        (post_to ''/projects''))"
proof -
  let ?t = "bearer_only_env\<lparr>fault := no_fault(ImportFlaskLogin := Some ImportError)\<rparr>"
  have a: "require_2fa enforcing" by (simp add: enforcing_def)
  have b: "\<not> is_allowed_route (post_to ''/projects'') (lstrip_slash (path (post_to ''/projects'')))"
    using projects_not_allowed by simp
  have c: "fault bearer_only_env = no_fault" by (simp add: bearer_only_env_def)
  have f: "case current_user bearer_only_env of None \<Rightarrow> True | Some u \<Rightarrow> \<not> is_authenticated u"
    by (simp add: bearer_only_env_def person.defs login_user.defs alice_def)
  have g: "jwt_identity bearer_only_env = Some ''1'' \<and> get_person bearer_only_env ''1'' = Some alice
           \<and> \<not> has_2fa alice \<and> \<not> is_exempt_user enforcing (email alice)"
    by (simp add: bearer_only_env_def alice_def has_2fa_def is_exempt_user_def enforcing_def)
  have h: "fault ?t ImportFlaskLogin = Some ImportError" by simp
  show ?thesis
    using a b c f g h gate_identity_source[OF a b, of bearer_only_env]
      gate_identity_source[OF a b, of ?t]
    by (simp add: no_fault_def)
qed

text \<open>
  C4. The two loaders of the exempt list disagree: the command-line script keeps the
  letter case of the configured entries and compares emails as they are, the gate
  lower-cases both sides. With \<open>2FA_EXEMPT_USERS=A@X.com\<close> the account \<open>a@x.com\<close> is exempt
  for the gate and is disabled by \<open>enforce_2fa\<close>.
\<close>

theorem exempt_list_case_divergence:
  "get_exempt_users mixed_case_environ = [''A@X.com'']
   \<and> mw_get_exempt_users mixed_case_environ = [''a@x.com'']
   \<and> is_exempt_user (init_middleware mixed_case_environ) (email alice)
   \<and> email_str alice \<notin> set (get_exempt_users mixed_case_environ)
   \<and> users_to_disable (get_exempt_users mixed_case_environ) [alice] = [alice]
   \<and> result (enforce_2fa \<lparr>table = [alice], select_fails = False,
                 update_fails = (\<lambda>uid. False), commit_fails = False,
                 rollback_fails = False\<rparr>
               (get_exempt_users mixed_case_environ) ''yes'') = Inr 1"
  by (simp add: get_exempt_users_def mw_get_exempt_users_def mixed_case_environ_def getenv_def
      strip_def isspace_def lower_def lower_char_def init_middleware_def is_exempt_user_def
      alice_def email_str_def users_to_disable_def select_active_without_2fa_def
      enforce_2fa_def set_active_def)

section \<open>Properties of the command-line script\<close>

lemma audit_loop_without:
  "users_without_2fa (audit_loop ex us b) =
     users_without_2fa b @ map (make_user_info ex) (filter (\<lambda>u. active u \<and> \<not> has_2fa u) us)"
  by (induction us arbitrary: b) (auto simp: Let_def)


lemma disable_loop_aborted:
  "aborted (disable_loop f us st) = (aborted st \<or> (\<exists>u\<in>set us. f (user_id u)))"
  by (induction us arbitrary: st) auto

lemma disable_loop_count:
  "disabled_count (disable_loop f us st) =
     disabled_count st
       + (if aborted st then 0 else length (takeWhile (\<lambda>u. \<not> f (user_id u)) us))"
  by (induction us arbitrary: st) auto





text \<open>
  C5. Without an affirmative answer (\<open>yes\<close> in any letter case) \<open>enforce_2fa\<close> sends no
  \<open>UPDATE\<close> and leaves the table as it was, whatever the table, the exempt list and the
  behaviour of the driver; when its query did not fail it returns 0.
\<close>

theorem enforce_needs_confirmation:
  assumes "lower confirm \<noteq> ''yes''"
  shows "sent (enforce_2fa d ex confirm) = []
         \<and> stored (enforce_2fa d ex confirm) = table d
         \<and> map active (stored (enforce_2fa d ex confirm)) = map active (table d)
         \<and> (\<not> select_fails d \<longrightarrow> result (enforce_2fa d ex confirm) = Inr 0)"
  using assms by (simp add: enforce_2fa_def)

theorem enforce_needs_confirmation_witness:
  "lower ''no'' \<noteq> ''yes'' \<and> \<not> select_fails sample_db
   \<and> users_to_disable [] (table sample_db) = [alice, bob]
   \<and> sent (enforce_2fa sample_db [] ''no'') = []
   \<and> stored (enforce_2fa sample_db [] ''no'') = [alice, bob]
   \<and> result (enforce_2fa sample_db [] ''no'') = Inr 0"
proof -
  have a: "lower ''no'' \<noteq> ''yes''" by (simp add: lower_def)
  have b: "\<not> select_fails sample_db" "table sample_db = [alice, bob]"
    by (simp_all add: sample_db_def)
  have c: "users_to_disable [] (table sample_db) = [alice, bob]"
    by (simp add: sample_db_def users_to_disable_def select_active_without_2fa_def alice_def
        bob_def)
  show ?thesis
    using a b c enforce_needs_confirmation[OF a, of sample_db "[]"] by simp
qed




text \<open>
  What the amended statement leaves open: once an \<open>UPDATE\<close> has raised, the transaction is
  aborted, so the commit stores nothing, also not the deactivations counted before, and
  the count is that of the accounts before the first one that raised.
\<close>

lemma enforce_failed_update_stores_nothing:
  assumes "\<not> select_fails d" and "lower confirm = ''yes''" and "\<not> commit_fails d"
    and "u \<in> set (users_to_disable ex (table d))" and "update_fails d (user_id u)"
  shows "stored (enforce_2fa d ex confirm) = table d
         \<and> result (enforce_2fa d ex confirm)
             = Inr (int (length (takeWhile (\<lambda>u. \<not> update_fails d (user_id u))
                                   (users_to_disable ex (table d)))))"
proof -
  have ne: "users_to_disable ex (table d) \<noteq> []" using assms(4) by auto
  then have ne': "select_active_without_2fa (table d) \<noteq> []"
    by (auto simp: users_to_disable_def)
  have "aborted (disable_loop (update_fails d) (users_to_disable ex (table d))
          \<lparr>pending = table d, disabled_count = 0, updates = [], aborted = False\<rparr>)"
    using assms(4,5) by (auto simp: disable_loop_aborted)
  then show ?thesis
    using assms(1,2,3) ne ne' by (simp add: enforce_2fa_def Let_def disable_loop_count)
qed

lemma length_filter_sort_key:
  "length (filter P (sort_key f xs)) = length (filter P xs)"
  by (simp add: filter_sort)

lemma audit_users_result:
  assumes "\<not> select_fails d"
  shows "audit_users d ex
         = (int (length (filter (\<lambda>v. email v \<noteq> None \<and> active v \<and> \<not> has_2fa v) (table d))),
            Some (audit_loop ex (select_all_users (table d)) empty_buckets))"
proof -
  have "length (filter (\<lambda>u. active u \<and> \<not> has_2fa u)
            (sort_key email_str (filter (\<lambda>u. email u \<noteq> None) (table d))))
        = length (filter (\<lambda>v. email v \<noteq> None \<and> active v \<and> \<not> has_2fa v) (table d))"
    by (simp add: length_filter_sort_key conj_commute conj_left_commute)
  then show ?thesis
    using assms
    by (simp add: audit_users_def Let_def audit_loop_without empty_buckets_def
        select_all_users_def)
qed

text \<open>
  C3, as the claim states it, fails: with alice exempt and without a second factor,
  \<open>audit_users\<close> lists her among the users without 2FA and returns 1.
\<close>

theorem audit_counts_exempt_counterexample:
  "email alice = Some ''a@x.com'' \<and> ''a@x.com'' \<in> set [''a@x.com''] \<and> \<not> has_2fa alice
   \<and> audit_users \<lparr>table = [alice], select_fails = False, update_fails = (\<lambda>uid. False),
                   commit_fails = False, rollback_fails = False\<rparr> [''a@x.com'']
       = (1, Some \<lparr>users_without_2fa = [make_user_info [''a@x.com''] alice],
                   users_with_2fa = [], inactive_users = []\<rparr>)
   \<and> exempt (make_user_info [''a@x.com''] alice)"
  by (simp add: audit_users_def select_all_users_def empty_buckets_def Let_def alice_def
      has_2fa_def make_user_info_def email_str_def)

text \<open>
  C3, amended. For every account whose email is in the exempt list of the script and whose
  three flags are all false, \<open>audit_users\<close> marks the account as exempt and
  \<open>enforce_2fa\<close> never selects it; but \<open>audit_users\<close> lists such an account, when it is
  active, among the users without 2FA, and the value it returns, the length of that list,
  is the number of active accounts with an email and no method, exempt or not.
\<close>

theorem audit_lists_exempt_accounts:
  assumes "\<not> select_fails d" and "u \<in> set (table d)"
    and "email u = Some em" and "em \<in> set ex" and "\<not> has_2fa u"
  shows "\<exists>b. audit_users d ex = (int (length (users_without_2fa b)), Some b)
             \<and> exempt (make_user_info ex u)
             \<and> (active u \<longrightarrow> make_user_info ex u \<in> set (users_without_2fa b))
             \<and> length (users_without_2fa b)
                 = length (filter (\<lambda>v. email v \<noteq> None \<and> active v \<and> \<not> has_2fa v) (table d))
             \<and> u \<notin> set (users_to_disable ex (table d))"
proof -
  let ?b = "audit_loop ex (select_all_users (table d)) empty_buckets"
  have w: "users_without_2fa ?b
           = map (make_user_info ex)
               (filter (\<lambda>u. active u \<and> \<not> has_2fa u) (select_all_users (table d)))"
    by (simp add: audit_loop_without empty_buckets_def)
  have r: "audit_users d ex = (int (length (users_without_2fa ?b)), Some ?b)"
    using assms(1) by (simp add: audit_users_def Let_def)
  have len: "length (users_without_2fa ?b)
             = length (filter (\<lambda>v. email v \<noteq> None \<and> active v \<and> \<not> has_2fa v) (table d))"
    using r audit_users_result[OF assms(1), of ex] by simp
  have ex: "exempt (make_user_info ex u)"
    using assms(3,4) by (simp add: make_user_info_def email_str_def)
  have sel: "u \<in> set (select_all_users (table d))"
    using assms(2,3) by (simp add: select_all_users_def)
  have mem: "active u \<longrightarrow> make_user_info ex u \<in> set (users_without_2fa ?b)"
    unfolding w using sel assms(5) by auto
  have nd: "u \<notin> set (users_to_disable ex (table d))"
    using assms(3,4) by (simp add: users_to_disable_def email_str_def)
  show ?thesis using r ex mem len nd by blast
qed

theorem audit_lists_exempt_accounts_witness:
  "\<not> select_fails sample_db \<and> alice \<in> set (table sample_db) \<and> email alice = Some ''a@x.com''
   \<and> ''a@x.com'' \<in> set [''a@x.com''] \<and> \<not> has_2fa alice \<and> active alice
   \<and> (\<exists>b. audit_users sample_db [''a@x.com''] = (2, Some b)
          \<and> make_user_info [''a@x.com''] alice \<in> set (users_without_2fa b))
   \<and> alice \<notin> set (users_to_disable [''a@x.com''] (table sample_db))"
proof -
  have a: "\<not> select_fails sample_db" and b: "alice \<in> set (table sample_db)"
    by (simp_all add: sample_db_def)
  have c: "email alice = Some ''a@x.com''" and f: "\<not> has_2fa alice" and g: "active alice"
    by (simp_all add: alice_def has_2fa_def)
  have d: "''a@x.com'' \<in> set [''a@x.com'']" by simp
  have n: "length (filter (\<lambda>v. email v \<noteq> None \<and> active v \<and> \<not> has_2fa v) (table sample_db)) = 2"
    by (simp add: sample_db_def alice_def bob_def has_2fa_def)
  show ?thesis
    using a b c d f g n audit_lists_exempt_accounts[OF a b c d f] by auto
qed

end
